theory Spec2Isabelle
  imports Main "HOL-Library.Word"
begin

section \<open>Range-partition routing of table/tables/partition.go\<close>

text \<open>
  A shallow embedding of \<^verbatim>\<open>table/tables/partition.go\<close>: the boundary compiler
  (\<^verbatim>\<open>generatePartitionExpr\<close>), the locator (\<^verbatim>\<open>locatePartition\<close>), the registry
  built by \<^verbatim>\<open>newPartitionedTable\<close> and the facade methods of
  \<^verbatim>\<open>partitionedTable\<close>.
\<close>

subsection \<open>Outcomes of a Go call\<close>

type_synonym int64 = "64 word"

text \<open>
  A Go call either returns or panics. A function with an \<^verbatim>\<open>error\<close> result returns
  \<open>Inl err\<close> for a non-nil error and \<open>Inr v\<close> for a nil one.
\<close>

datatype panic =
    NilDereference
  | IndexOutOfRange
  | PanicMsg string

datatype 'a go = Panic panic | Return 'a

text \<open>
  The errors of the packages involved. \<^verbatim>\<open>table.ErrTrgInvalidCreationCtx\<close> is the
  one error value this file names itself; every other error comes out of a collaborator.
\<close>

datatype error =
    ErrTrgInvalidCreationCtx
  | CollaboratorError string

text \<open>
  \<^verbatim>\<open>errors.Trace\<close> (juju/errors) records the call site on the error and keeps its
  cause; errors are identified with their cause here.
\<close>

definition Trace :: "error \<Rightarrow> error" where
  "Trace err = err"

subsection \<open>Schema metadata\<close>

text \<open>
  Modelled from the spec: the declarations of \<^verbatim>\<open>model.PartitionDefinition\<close> and
  \<^verbatim>\<open>model.PartitionInfo\<close> are not part of this file; the records carry the fields
  the code reads (\<^verbatim>\<open>ID\<close>, \<^verbatim>\<open>LessThan\<close>, \<^verbatim>\<open>Expr\<close>, \<^verbatim>\<open>Definitions\<close>).
\<close>

record PartitionDefinition =
  ID :: int64
  LessThan :: "string list"

record PartitionInfo =
  Expr :: string
  Definitions :: "PartitionDefinition list"

subsection \<open>Collaborators\<close>

text \<open>
  The functions of other packages that the file calls are parameters of the model:
  \<^item> \<open>GetPartitionInfo\<close>: \<^verbatim>\<open>(*model.TableInfo).GetPartitionInfo\<close>, \<open>None\<close> for nil;
  \<^item> \<open>ParseSimpleExprWithTableInfo\<close>: the expression compiler, on the mock context;
  \<^item> \<open>EvalInt\<close>: \<^verbatim>\<open>Expression.EvalInt\<close> on the caller's context and the row made
    of the datums, giving the error or the pair of the value and the null flag;
  \<^item> \<open>initTableIndices\<close> and \<open>initTableCommonWithIndices\<close>: they fill a
    \<^verbatim>\<open>tableCommon\<close> through a pointer and return an error; here they return the
    filled \<^verbatim>\<open>tableCommon\<close> or the error. The columns and the allocator that
    \<open>initTableCommonWithIndices\<close> receives are read from the table given to it;
  \<^item> \<open>meta\<close>: the field \<^verbatim>\<open>tableCommon.meta\<close>.
\<close>

record ('ti, 'expr, 'row, 'tc) collaborators =
  GetPartitionInfo :: "'ti \<Rightarrow> PartitionInfo option"
  ParseSimpleExprWithTableInfo :: "string \<Rightarrow> 'ti \<Rightarrow> error + 'expr"
  EvalInt :: "'expr \<Rightarrow> 'row \<Rightarrow> error + (int64 \<times> bool)"
  initTableIndices :: "'tc \<Rightarrow> error + 'tc"
  initTableCommonWithIndices :: "'ti \<Rightarrow> int64 \<Rightarrow> 'tc \<Rightarrow> error + 'tc"
  meta :: "'tc \<Rightarrow> 'ti"

text \<open>
  The physical table of one partition (the methods of \<^verbatim>\<open>tableCommon\<close>) works on
  the storage reached through the session context, the state \<open>'st\<close>.
\<close>

record ('row, 'tc, 'st) physical =
  tableCommon_AddRecord :: "'tc \<Rightarrow> 'row \<Rightarrow> bool \<Rightarrow> 'st \<Rightarrow> (error + int64) \<times> 'st"
  tableCommon_RemoveRecord :: "'tc \<Rightarrow> int64 \<Rightarrow> 'row \<Rightarrow> 'st \<Rightarrow> error option \<times> 'st"
  tableCommon_UpdateRecord ::
    "'tc \<Rightarrow> int64 \<Rightarrow> 'row \<Rightarrow> 'row \<Rightarrow> bool list \<Rightarrow> 'st \<Rightarrow> error option \<times> 'st"

subsection \<open>The table\<close>

record 'expr PartitionExpr =
  Ranges :: "'expr list"
  UpperBounds :: "'expr list"

record ('expr, 'tc) partitionedTable =
  Table :: 'tc
  partitionExpr :: "'expr PartitionExpr"
  partitions :: "int64 \<rightharpoonup> 'tc"

subsection \<open>sort.Search\<close>

text \<open>
  Go's \<^verbatim>\<open>sort.Search(n, f)\<close>: \<^verbatim>\<open>i, j := 0, n\<close>, and while \<^verbatim>\<open>i < j\<close> the
  midpoint \<^verbatim>\<open>h := int(uint(i+j) >> 1)\<close> is tested, \<^verbatim>\<open>i = h + 1\<close> when
  \<^verbatim>\<open>f(h)\<close> is false and \<^verbatim>\<open>j = h\<close> otherwise. A slice length is at most the
  largest \<^verbatim>\<open>int\<close>, so the unsigned sum does not wrap and \<open>h\<close> is \<open>(i + j) div 2\<close>.
  The closure given to it writes a captured variable, so \<open>f\<close> takes and returns the
  state of what it captures.
\<close>

function Search_loop :: "(nat \<Rightarrow> 's \<Rightarrow> bool \<times> 's) \<Rightarrow> nat \<Rightarrow> nat \<Rightarrow> 's \<Rightarrow> nat \<times> 's" where
  "Search_loop f i j s =
     (if i < j then
        (let h = (i + j) div 2 in
         case f h s of
           (b, s') \<Rightarrow> if \<not> b then Search_loop f (h + 1) j s' else Search_loop f i h s')
      else (i, s))"
  by pat_completeness auto
termination
  by (relation "measure (\<lambda>(f, i, j, s). j - i)") auto

declare Search_loop.simps [simp del]

definition Search :: "nat \<Rightarrow> (nat \<Rightarrow> 's \<Rightarrow> bool \<times> 's) \<Rightarrow> 's \<Rightarrow> nat \<times> 's" where
  "Search n f s = Search_loop f 0 n s"

subsection \<open>locatePartition\<close>

text \<open>
  The closure of \<^verbatim>\<open>locatePartition\<close>. It assigns the captured \<^verbatim>\<open>err\<close> at every
  call (\<^verbatim>\<open>ret, _, err = partitionExprs[i].EvalInt(...)\<close>), answers true on an error
  and \<^verbatim>\<open>ret > 0\<close> otherwise. \<^verbatim>\<open>sort.Search\<close> calls it at \<open>i < n\<close> only.
\<close>

definition locateClosure ::
  "('ti, 'expr, 'row, 'tc) collaborators \<Rightarrow> 'expr list \<Rightarrow> 'row \<Rightarrow>
   nat \<Rightarrow> error option \<Rightarrow> bool \<times> error option" where
  "locateClosure env partitionExprs r i err =
     (case EvalInt env (partitionExprs ! i) r of
        Inl e \<Rightarrow> (True, Some e)
      | Inr (ret, isNull) \<Rightarrow> (0 <s ret, None))"

text \<open>The pair \<^verbatim>\<open>idx\<close>, \<^verbatim>\<open>err\<close> after the call of \<^verbatim>\<open>sort.Search\<close>.\<close>

definition locateSearch ::
  "('ti, 'expr, 'row, 'tc) collaborators \<Rightarrow> 'expr list \<Rightarrow> 'row \<Rightarrow> nat \<times> error option" where
  "locateSearch env partitionExprs r =
     Search (length partitionExprs) (locateClosure env partitionExprs r) None"

definition locatePartition ::
  "('ti, 'expr, 'row, 'tc) collaborators \<Rightarrow> ('expr, 'tc) partitionedTable \<Rightarrow>
   PartitionInfo option \<Rightarrow> 'row \<Rightarrow> (error + int64) go" where
  "locatePartition env t pi r =
     (let partitionExprs = UpperBounds (partitionExpr t) in
      case locateSearch env partitionExprs r of
        (idx, Some err) \<Rightarrow> Return (Inl (Trace err))
      | (idx, None) \<Rightarrow>
          if int idx < 0 \<or> idx \<ge> length partitionExprs
          then Return (Inl (Trace ErrTrgInvalidCreationCtx))
          else (case pi of
                  None \<Rightarrow> Panic NilDereference
                | Some p \<Rightarrow>
                    if idx < length (Definitions p)
                    then Return (Inr (ID (Definitions p ! idx)))
                    else Panic IndexOutOfRange))"

subsection \<open>generatePartitionExpr\<close>

text \<open>
  \<^verbatim>\<open>strings.EqualFold\<close> compares under Unicode simple case folding. Its second
  argument here is always \<^verbatim>\<open>"MAXVALUE"\<close>, and no rune outside ASCII folds onto one
  of the letters M, A, X, V, L, U, E, so folding the ASCII letters decides it.
\<close>

definition toUpperASCII :: "char \<Rightarrow> char" where
  "toUpperASCII c =
     (let n = (of_char c :: nat) in if 97 \<le> n \<and> n \<le> 122 then char_of (n - 32) else c)"

definition EqualFold :: "string \<Rightarrow> string \<Rightarrow> bool" where
  "EqualFold a b = (map toUpperASCII a = map toUpperASCII b)"

text \<open>\<^verbatim>\<open>LessThan[0]\<close>: indexing an empty slice panics.\<close>

definition LessThan0 :: "PartitionDefinition \<Rightarrow> string go" where
  "LessThan0 d = (case LessThan d of [] \<Rightarrow> Panic IndexOutOfRange | v # _ \<Rightarrow> Return v)"

text \<open>
  The two texts that one iteration of the loop writes into \<^verbatim>\<open>buf\<close>: first the
  text of the locate expression, then, when \<^verbatim>\<open>i > 0\<close>, the lower bound appended
  to it. \<^verbatim>\<open>buf\<close> is reset at the end of the iteration, so it is empty at its start.
\<close>

definition locateText :: "PartitionInfo \<Rightarrow> string \<Rightarrow> string" where
  "locateText pi lit =
     (if EqualFold lit ''MAXVALUE'' then ''true''
      else ''(('' @ Expr pi @ '') < ('' @ lit @ ''))'')"

definition pruneText :: "PartitionInfo \<Rightarrow> string \<Rightarrow> string \<Rightarrow> string" where
  "pruneText pi buf litPrev = buf @ '' and (('' @ Expr pi @ '') >= ('' @ litPrev @ ''))''"

text \<open>
  The loop \<^verbatim>\<open>for i := 0; i < len(pi.Definitions); i++\<close> with its two accumulators.
  The two \<^verbatim>\<open>log.Error\<close> calls write to the process log only and are left out.
\<close>

function generateLoop ::
  "('ti, 'expr, 'row, 'tc) collaborators \<Rightarrow> 'ti \<Rightarrow> PartitionInfo \<Rightarrow> nat \<Rightarrow>
   'expr list \<Rightarrow> 'expr list \<Rightarrow> (error + 'expr PartitionExpr) go" where
  "generateLoop env tblInfo pi i partitionPruneExprs locateExprs =
     (if i < length (Definitions pi) then
        (case LessThan0 (Definitions pi ! i) of
           Panic p \<Rightarrow> Panic p
         | Return lit \<Rightarrow>
            (let buf = locateText pi lit in
             case ParseSimpleExprWithTableInfo env buf tblInfo of
               Inl err \<Rightarrow> Return (Inl (Trace err))
             | Inr expr \<Rightarrow>
                (case (if i > 0
                       then (case LessThan0 (Definitions pi ! (i - 1)) of
                               Panic p \<Rightarrow> Panic p
                             | Return litPrev \<Rightarrow> Return (pruneText pi buf litPrev))
                       else Return buf) of
                   Panic p \<Rightarrow> Panic p
                 | Return buf' \<Rightarrow>
                    (case ParseSimpleExprWithTableInfo env buf' tblInfo of
                       Inl err \<Rightarrow> Return (Inl (Trace err))
                     | Inr expr' \<Rightarrow>
                         generateLoop env tblInfo pi (i + 1)
                           (partitionPruneExprs @ [expr']) (locateExprs @ [expr])))))
      else Return (Inr \<lparr>Ranges = partitionPruneExprs, UpperBounds = locateExprs\<rparr>))"
  by pat_completeness auto
termination
  by (relation "measure (\<lambda>(env, tblInfo, pi, i, prune, loc). length (Definitions pi) - i)") auto

declare generateLoop.simps [simp del]

definition generatePartitionExpr ::
  "('ti, 'expr, 'row, 'tc) collaborators \<Rightarrow> 'ti \<Rightarrow> (error + 'expr PartitionExpr) go" where
  "generatePartitionExpr env tblInfo =
     (case GetPartitionInfo env tblInfo of
        None \<Rightarrow> Panic NilDereference
      | Some pi \<Rightarrow> generateLoop env tblInfo pi 0 [] [])"

subsection \<open>newPartitionedTable\<close>

text \<open>The loop \<^verbatim>\<open>for _, p := range pi.Definitions\<close> filling the map.\<close>

fun buildPartitions ::
  "('ti, 'expr, 'row, 'tc) collaborators \<Rightarrow> 'tc \<Rightarrow> 'ti \<Rightarrow> PartitionDefinition list \<Rightarrow>
   (int64 \<rightharpoonup> 'tc) \<Rightarrow> error + (int64 \<rightharpoonup> 'tc)" where
  "buildPartitions env tbl tblInfo [] parts = Inr parts"
| "buildPartitions env tbl tblInfo (p # ps) parts =
     (case initTableCommonWithIndices env tblInfo (ID p) tbl of
        Inl err \<Rightarrow> Inl (Trace err)
      | Inr t \<Rightarrow> buildPartitions env tbl tblInfo ps (parts(ID p \<mapsto> t)))"

definition newPartitionedTable ::
  "('ti, 'expr, 'row, 'tc) collaborators \<Rightarrow> 'tc \<Rightarrow> 'ti \<Rightarrow>
   (error + ('expr, 'tc) partitionedTable) go" where
  "newPartitionedTable env tbl tblInfo =
     (case generatePartitionExpr env tblInfo of
        Panic p \<Rightarrow> Panic p
      | Return (Inl err) \<Rightarrow> Return (Inl (Trace err))
      | Return (Inr pe) \<Rightarrow>
         (case initTableIndices env tbl of
            Inl err \<Rightarrow> Return (Inl (Trace err))
          | Inr tbl' \<Rightarrow>
             (case GetPartitionInfo env tblInfo of
                None \<Rightarrow> Panic NilDereference
              | Some pi \<Rightarrow>
                 (case buildPartitions env tbl' tblInfo (Definitions pi) Map.empty of
                    Inl err \<Rightarrow> Return (Inl err)
                  | Inr parts \<Rightarrow>
                      Return (Inr \<lparr>Table = tbl', partitionExpr = pe, partitions = parts\<rparr>)))))"

subsection \<open>The methods of partitionedTable\<close>

text \<open>
  \<^verbatim>\<open>t.partitions[pid]\<close>: a Go map read never fails, a missing key reads as the nil
  \<^verbatim>\<open>*partition\<close>, here \<open>None\<close>.
\<close>

definition GetPartition :: "('expr, 'tc) partitionedTable \<Rightarrow> int64 \<Rightarrow> 'tc option go" where
  "GetPartition t pid = Return (partitions t pid)"

text \<open>
  A method of \<^verbatim>\<open>tableCommon\<close> called on the value \<^verbatim>\<open>GetPartition\<close> returned: on
  the nil \<^verbatim>\<open>*partition\<close> the call dereferences nil and panics.
\<close>

definition receiver :: "'tc option go \<Rightarrow> 'tc go" where
  "receiver v =
     (case v of
        Panic p \<Rightarrow> Panic p
      | Return None \<Rightarrow> Panic NilDereference
      | Return (Some tbl) \<Rightarrow> Return tbl)"

definition AddRecord ::
  "('ti, 'expr, 'row, 'tc) collaborators \<Rightarrow> ('row, 'tc, 'st) physical \<Rightarrow>
   ('expr, 'tc) partitionedTable \<Rightarrow> 'row \<Rightarrow> bool \<Rightarrow> 'st \<Rightarrow> (error + int64) go \<times> 'st" where
  "AddRecord env ph t r skipHandleCheck s =
     (let partitionInfo = GetPartitionInfo env (meta env (Table t)) in
      case locatePartition env t partitionInfo r of
        Panic p \<Rightarrow> (Panic p, s)
      | Return (Inl err) \<Rightarrow> (Return (Inl (Trace err)), s)
      | Return (Inr pid) \<Rightarrow>
         (case receiver (GetPartition t pid) of
            Panic p \<Rightarrow> (Panic p, s)
          | Return tbl \<Rightarrow>
             (case tableCommon_AddRecord ph tbl r skipHandleCheck s of
                (res, s') \<Rightarrow> (Return res, s'))))"

definition RemoveRecord ::
  "('ti, 'expr, 'row, 'tc) collaborators \<Rightarrow> ('row, 'tc, 'st) physical \<Rightarrow>
   ('expr, 'tc) partitionedTable \<Rightarrow> int64 \<Rightarrow> 'row \<Rightarrow> 'st \<Rightarrow> error option go \<times> 'st" where
  "RemoveRecord env ph t h r s =
     (let partitionInfo = GetPartitionInfo env (meta env (Table t)) in
      case locatePartition env t partitionInfo r of
        Panic p \<Rightarrow> (Panic p, s)
      | Return (Inl err) \<Rightarrow> (Return (Some (Trace err)), s)
      | Return (Inr pid) \<Rightarrow>
         (case receiver (GetPartition t pid) of
            Panic p \<Rightarrow> (Panic p, s)
          | Return tbl \<Rightarrow>
             (case tableCommon_RemoveRecord ph tbl h r s of
                (res, s') \<Rightarrow> (Return res, s'))))"

text \<open>
  \<^verbatim>\<open>UpdateRecord\<close>. The \<^verbatim>\<open>log.Error\<close> call on a failed remove writes to the
  process log only and is left out.
\<close>

definition UpdateRecord ::
  "('ti, 'expr, 'row, 'tc) collaborators \<Rightarrow> ('row, 'tc, 'st) physical \<Rightarrow>
   ('expr, 'tc) partitionedTable \<Rightarrow> int64 \<Rightarrow> 'row \<Rightarrow> 'row \<Rightarrow> bool list \<Rightarrow> 'st \<Rightarrow>
   error option go \<times> 'st" where
  "UpdateRecord env ph t h currData newData touched s =
     (let partitionInfo = GetPartitionInfo env (meta env (Table t)) in
      case locatePartition env t partitionInfo currData of
        Panic p \<Rightarrow> (Panic p, s)
      | Return (Inl err) \<Rightarrow> (Return (Some (Trace err)), s)
      | Return (Inr from) \<Rightarrow>
         (case locatePartition env t partitionInfo newData of
            Panic p \<Rightarrow> (Panic p, s)
          | Return (Inl err) \<Rightarrow> (Return (Some (Trace err)), s)
          | Return (Inr to) \<Rightarrow>
             if from \<noteq> to then
               (case receiver (GetPartition t to) of
                  Panic p \<Rightarrow> (Panic p, s)
                | Return dst \<Rightarrow>
                   (case tableCommon_AddRecord ph dst newData False s of
                      (Inl err, s1) \<Rightarrow> (Return (Some (Trace err)), s1)
                    | (Inr recordID, s1) \<Rightarrow>
                       (case receiver (GetPartition t from) of
                          Panic p \<Rightarrow> (Panic p, s1)
                        | Return src \<Rightarrow>
                           (case tableCommon_RemoveRecord ph src h currData s1 of
                              (Some err, s2) \<Rightarrow> (Return (Some (Trace err)), s2)
                            | (None, s2) \<Rightarrow> (Return None, s2)))))
             else
               (case receiver (GetPartition t to) of
                  Panic p \<Rightarrow> (Panic p, s)
                | Return tbl \<Rightarrow>
                   (case tableCommon_UpdateRecord ph tbl h currData newData touched s of
                      (res, s') \<Rightarrow> (Return res, s')))))"

definition GetID :: "('expr, 'tc) partitionedTable \<Rightarrow> int64 go" where
  "GetID t = Panic (PanicMsg ''GetID() should never be called on PartitionedTable'')"

subsection \<open>Observing the calls\<close>

text \<open>
  Two wrappers that leave the wrapped function as it is and write down each call:
  \<open>probed\<close> lists the indices at which \<^verbatim>\<open>sort.Search\<close> calls its closure,
  \<open>recording\<close> lists the calls that reach the physical tables.
\<close>

definition probed ::
  "(nat \<Rightarrow> 's \<Rightarrow> bool \<times> 's) \<Rightarrow> nat \<Rightarrow> 's \<times> nat list \<Rightarrow> bool \<times> 's \<times> nat list" where
  "probed f i = (\<lambda>(s, seen). case f i s of (b, s') \<Rightarrow> (b, s', seen @ [i]))"

datatype ('row, 'tc) call =
    AddRecordCall 'tc 'row bool
  | RemoveRecordCall 'tc int64 'row
  | UpdateRecordCall 'tc int64 'row 'row "bool list"

definition recording ::
  "('row, 'tc, 'st) physical \<Rightarrow> ('row, 'tc, 'st \<times> ('row, 'tc) call list) physical" where
  "recording ph =
     \<lparr>tableCommon_AddRecord = (\<lambda>tbl r skipHandleCheck (s, calls).
        case tableCommon_AddRecord ph tbl r skipHandleCheck s of
          (res, s') \<Rightarrow> (res, s', calls @ [AddRecordCall tbl r skipHandleCheck])),
      tableCommon_RemoveRecord = (\<lambda>tbl h r (s, calls).
        case tableCommon_RemoveRecord ph tbl h r s of
          (res, s') \<Rightarrow> (res, s', calls @ [RemoveRecordCall tbl h r])),
      tableCommon_UpdateRecord = (\<lambda>tbl h currData newData touched (s, calls).
        case tableCommon_UpdateRecord ph tbl h currData newData touched s of
          (res, s') \<Rightarrow> (res, s', calls @ [UpdateRecordCall tbl h currData newData touched]))\<rparr>"

subsection \<open>What a predicate says about a row\<close>

definition evalTrue :: "('ti, 'expr, 'row, 'tc) collaborators \<Rightarrow> 'expr \<Rightarrow> 'row \<Rightarrow> bool" where
  "evalTrue env e r = (case EvalInt env e r of Inl err \<Rightarrow> False | Inr (ret, isNull) \<Rightarrow> 0 <s ret)"

definition evalFails :: "('ti, 'expr, 'row, 'tc) collaborators \<Rightarrow> 'expr \<Rightarrow> 'row \<Rightarrow> bool" where
  "evalFails env e r = (case EvalInt env e r of Inl err \<Rightarrow> True | Inr v \<Rightarrow> False)"


subsection \<open>The boundary predicates as the specification words them\<close>

text \<open>
  The boundary literal of partition \<open>i\<close>, the text of \<open>UpperBounds[i]\<close> (always
  true for the unbounded marker, otherwise key \<open><\<close> boundary \<open>i\<close>) and the text of
  \<open>Ranges[i]\<close> (that of \<open>UpperBounds[i]\<close>, and for \<open>i > 0\<close> also
  key \<open>>=\<close> boundary \<open>i - 1\<close>).
\<close>

definition boundaryLiteral :: "PartitionInfo \<Rightarrow> nat \<Rightarrow> string" where
  "boundaryLiteral pi i = hd (LessThan (Definitions pi ! i))"

definition isUnbounded :: "string \<Rightarrow> bool" where
  "isUnbounded lit = EqualFold lit ''MAXVALUE''"

definition spec_UpperBoundText :: "PartitionInfo \<Rightarrow> nat \<Rightarrow> string" where
  "spec_UpperBoundText pi i =
     (if isUnbounded (boundaryLiteral pi i) then ''true''
      else ''(('' @ Expr pi @ '') < ('' @ boundaryLiteral pi i @ ''))'')"

definition spec_RangeText :: "PartitionInfo \<Rightarrow> nat \<Rightarrow> string" where
  "spec_RangeText pi i =
     (if i = 0 then spec_UpperBoundText pi i
      else spec_UpperBoundText pi i @
           '' and (('' @ Expr pi @ '') >= ('' @ boundaryLiteral pi (i - 1) @ ''))'')"

subsection \<open>A small instance of the collaborators\<close>

text \<open>
  Stand-ins for the collaborators, used to run the code on concrete tables: predicates
  over the partition key (the first column of the row), a compiler that knows the texts
  of the tables below, and physical tables that keep their rows in one list.
\<close>

datatype predicate =
    PTrue
  | PLess int
  | PAtLeast int
  | PAnd predicate predicate
  | PCast

fun holds :: "predicate \<Rightarrow> int \<Rightarrow> error + bool" where
  "holds PTrue k = Inr True"
| "holds (PLess b) k = Inr (k < b)"
| "holds (PAtLeast b) k = Inr (b \<le> k)"
| "holds (PAnd p q) k =
     (case holds p k of
        Inl err \<Rightarrow> Inl err
      | Inr x \<Rightarrow> (case holds q k of Inl err \<Rightarrow> Inl err | Inr y \<Rightarrow> Inr (x \<and> y)))"
| "holds PCast k = Inl (CollaboratorError ''cannot cast the partition key'')"

definition demo_EvalInt :: "predicate \<Rightarrow> int list \<Rightarrow> error + (int64 \<times> bool)" where
  "demo_EvalInt e r =
     (case r of
        [] \<Rightarrow> Inl (CollaboratorError ''no partition key'')
      | k # _ \<Rightarrow> (case holds e k of Inl err \<Rightarrow> Inl err | Inr b \<Rightarrow> Inr (if b then 1 else 0, False)))"

definition demo_texts :: "(string \<times> predicate) list" where
  "demo_texts =
     [(''true'', PTrue),
      (''((id) < (10))'', PLess 10),
      (''((id) < (100))'', PLess 100),
      (''((id) < (200))'', PLess 200),
      (''((id) < (200)) and ((id) >= (100))'', PAnd (PLess 200) (PAtLeast 100)),
      (''true and ((id) >= (200))'', PAnd PTrue (PAtLeast 200))]"

definition demo_Parse :: "string \<Rightarrow> PartitionInfo \<Rightarrow> error + predicate" where
  "demo_Parse text ti =
     (case map_of demo_texts text of
        None \<Rightarrow> Inl (CollaboratorError ''cannot parse'')
      | Some e \<Rightarrow> Inr e)"

text \<open>
  A \<^verbatim>\<open>tableCommon\<close> of the instance is the pair of its metadata and its physical
  identifier; the indices of identifier 13 cannot be built.
\<close>

definition demo_env :: "(PartitionInfo, predicate, int list, PartitionInfo \<times> int64) collaborators" where
  "demo_env =
     \<lparr>GetPartitionInfo = Some,
      ParseSimpleExprWithTableInfo = demo_Parse,
      EvalInt = demo_EvalInt,
      initTableIndices = (\<lambda>tbl.
        if snd tbl = 13 then Inl (CollaboratorError ''cannot build the indices'') else Inr tbl),
      initTableCommonWithIndices = (\<lambda>ti pid tbl.
        if pid = 13 then Inl (CollaboratorError ''cannot build the indices'') else Inr (ti, pid)),
      meta = fst\<rparr>"

text \<open>
  The rows of the instance are stored as (physical identifier, handle, row); an add fails
  on a handle that the partition already holds and changes nothing then.
\<close>

type_synonym demo_store = "(int64 \<times> int64 \<times> int list) list"

definition demo_handle :: "int list \<Rightarrow> int64" where
  "demo_handle r = (case r of [] \<Rightarrow> 0 | k # rest \<Rightarrow> (case rest of [] \<Rightarrow> 0 | v # _ \<Rightarrow> word_of_int v))"

definition demo_physical :: "(int list, PartitionInfo \<times> int64, demo_store) physical" where
  "demo_physical =
     \<lparr>tableCommon_AddRecord = (\<lambda>tbl r skipHandleCheck s.
        if (snd tbl, demo_handle r) \<in> set (map (\<lambda>(p, h, x). (p, h)) s)
        then (Inl (CollaboratorError ''Key Already Exists''), s)
        else (Inr (demo_handle r), s @ [(snd tbl, demo_handle r, r)])),
      tableCommon_RemoveRecord = (\<lambda>tbl h r s.
        if (snd tbl, h, r) \<in> set s
        then (None, removeAll (snd tbl, h, r) s)
        else (Some (CollaboratorError ''record not found''), s)),
      tableCommon_UpdateRecord = (\<lambda>tbl h currData newData touched s.
        if (snd tbl, h, currData) \<in> set s
        then (None, map (\<lambda>x. if x = (snd tbl, h, currData) then (snd tbl, h, newData) else x) s)
        else (Some (CollaboratorError ''record not found''), s))\<rparr>"

text \<open>
  The table of the spec's scenario, boundaries 100, 200 and MAXVALUE on the column
  \<^verbatim>\<open>id\<close>, and the table with the one boundary 10.
\<close>

definition demo_info3 :: PartitionInfo where
  "demo_info3 =
     \<lparr>Expr = ''id'',
      Definitions =
        [\<lparr>ID = 41, LessThan = [''100'']\<rparr>,
         \<lparr>ID = 42, LessThan = [''200'']\<rparr>,
         \<lparr>ID = 43, LessThan = [''maxvalue'']\<rparr>]\<rparr>"

definition demo_info1 :: PartitionInfo where
  "demo_info1 = \<lparr>Expr = ''id'', Definitions = [\<lparr>ID = 7, LessThan = [''10'']\<rparr>]\<rparr>"

definition demo_table3 :: "(predicate, PartitionInfo \<times> int64) partitionedTable" where
  "demo_table3 =
     \<lparr>Table = (demo_info3, 40),
      partitionExpr =
        \<lparr>Ranges = [PLess 100, PAnd (PLess 200) (PAtLeast 100), PAnd PTrue (PAtLeast 200)],
         UpperBounds = [PLess 100, PLess 200, PTrue]\<rparr>,
      partitions = [41 \<mapsto> (demo_info3, 41), 42 \<mapsto> (demo_info3, 42), 43 \<mapsto> (demo_info3, 43)]\<rparr>"

definition demo_table1 :: "(predicate, PartitionInfo \<times> int64) partitionedTable" where
  "demo_table1 =
     \<lparr>Table = (demo_info1, 6),
      partitionExpr = \<lparr>Ranges = [PLess 10], UpperBounds = [PLess 10]\<rparr>,
      partitions = [7 \<mapsto> (demo_info1, 7)]\<rparr>"

text \<open>
  A table whose second boundary predicate cannot be evaluated: the cast of the partition
  key fails on every row.
\<close>

definition demo_info2 :: PartitionInfo where
  "demo_info2 =
     \<lparr>Expr = ''id'',
      Definitions = [\<lparr>ID = 51, LessThan = [''100'']\<rparr>, \<lparr>ID = 52, LessThan = [''200'']\<rparr>]\<rparr>"

definition demo_table2 :: "(predicate, PartitionInfo \<times> int64) partitionedTable" where
  "demo_table2 =
     \<lparr>Table = (demo_info2, 50),
      partitionExpr =
        \<lparr>Ranges = [PLess 100, PAnd PCast (PAtLeast 100)], UpperBounds = [PLess 100, PCast]\<rparr>,
      partitions = [51 \<mapsto> (demo_info2, 51), 52 \<mapsto> (demo_info2, 52)]\<rparr>"

text \<open>
  Metadata whose boundary the compiler rejects, and metadata whose partition has the
  identifier whose indices cannot be built.
\<close>

definition demo_info_text :: PartitionInfo where
  "demo_info_text = \<lparr>Expr = ''id'', Definitions = [\<lparr>ID = 61, LessThan = [''ten'']\<rparr>]\<rparr>"

definition demo_info13 :: PartitionInfo where
  "demo_info13 = \<lparr>Expr = ''id'', Definitions = [\<lparr>ID = 13, LessThan = [''10'']\<rparr>]\<rparr>"

section \<open>Properties\<close>

subsection \<open>The search loop\<close>

lemma Search_loop_done: "\<not> i < j \<Longrightarrow> Search_loop f i j s = (i, s)"
  by (simp add: Search_loop.simps)

lemma Search_loop_step:
  "i < j \<Longrightarrow> f ((i + j) div 2) s = (b, s1) \<Longrightarrow>
   Search_loop f i j s =
     (if b then Search_loop f i ((i + j) div 2) s1 else Search_loop f ((i + j) div 2 + 1) j s1)"
  by (simp add: Search_loop.simps [of f i j s])

lemma Search_loop_bounds:
  "i \<le> j \<Longrightarrow> Search_loop f i j s = (idx, s') \<Longrightarrow> i \<le> idx \<and> idx \<le> j"
proof (induction f i j s rule: Search_loop.induct)
  case (1 f i j s)
  show ?case
  proof (cases "i < j")
    case False
    with "1.prems" show ?thesis by (simp add: Search_loop_done)
  next
    case True
    define h where "h = (i + j) div 2"
    obtain b s1 where fh: "f h s = (b, s1)" by (cases "f h s")
    have hb: "i \<le> h" "h < j" using True by (simp_all add: h_def)
    have step: "Search_loop f i j s = (if b then Search_loop f i h s1 else Search_loop f (h + 1) j s1)"
      using Search_loop_step [OF True, of f s b s1] fh by (simp add: h_def)
    show ?thesis
    proof (cases b)
      case True
      with step "1.prems"(2) have "Search_loop f i h s1 = (idx, s')" by simp
      with "1.IH"(2) [OF \<open>i < j\<close> h_def fh [symmetric]] True hb show ?thesis by simp
    next
      case False
      with step "1.prems"(2) have "Search_loop f (h + 1) j s1 = (idx, s')" by simp
      with "1.IH"(1) [OF \<open>i < j\<close> h_def fh [symmetric]] False hb show ?thesis by simp
    qed
  qed
qed

text \<open>On a monotone predicate the loop splits the range at its result.\<close>

lemma Search_loop_monotone:
  assumes "i \<le> j"
    and "\<And>k s. k < j \<Longrightarrow> fst (f k s) = P k"
    and "\<And>a b. a < b \<Longrightarrow> b < j \<Longrightarrow> P a \<Longrightarrow> P b"
    and "Search_loop f i j s = (idx, s')"
  shows "(\<forall>k. i \<le> k \<and> k < idx \<longrightarrow> \<not> P k) \<and> (\<forall>k. idx \<le> k \<and> k < j \<longrightarrow> P k)"
  using assms
proof (induction f i j s rule: Search_loop.induct)
  case (1 f i j s)
  show ?case
  proof (cases "i < j")
    case False
    with "1.prems"(1,4) show ?thesis by (auto simp add: Search_loop_done)
  next
    case True
    define h where "h = (i + j) div 2"
    obtain b s1 where fh: "f h s = (b, s1)" by (cases "f h s")
    have hb: "i \<le> h" "h < j" using True by (simp_all add: h_def)
    have bP: "b = P h" using "1.prems"(2) [OF hb(2), of s] fh by simp
    have step: "Search_loop f i j s = (if b then Search_loop f i h s1 else Search_loop f (h + 1) j s1)"
      using Search_loop_step [OF True, of f s b s1] fh by (simp add: h_def)
    show ?thesis
    proof (cases b)
      case True
      with step "1.prems"(4) have res: "Search_loop f i h s1 = (idx, s')" by simp
      have "(\<forall>k. i \<le> k \<and> k < idx \<longrightarrow> \<not> P k) \<and> (\<forall>k. idx \<le> k \<and> k < h \<longrightarrow> P k)"
      proof (rule "1.IH"(2) [OF \<open>i < j\<close> h_def fh [symmetric] _ hb(1) _ _ res])
        show "\<not> \<not> b" using True by simp
        show "\<And>k s. k < h \<Longrightarrow> fst (f k s) = P k" using "1.prems"(2) hb(2) by simp
        show "\<And>a b. a < b \<Longrightarrow> b < h \<Longrightarrow> P a \<Longrightarrow> P b" using "1.prems"(3) hb(2) by simp
      qed
      moreover have "\<forall>k. h \<le> k \<and> k < j \<longrightarrow> P k"
      proof (intro allI impI)
        fix k assume k: "h \<le> k \<and> k < j"
        show "P k"
        proof (cases "h = k")
          case True with bP \<open>b\<close> show ?thesis by simp
        next
          case False
          with k have "h < k" by simp
          from "1.prems"(3) [OF this] k bP \<open>b\<close> show ?thesis by simp
        qed
      qed
      ultimately show ?thesis by (metis linorder_not_less)
    next
      case False
      with step "1.prems"(4) have res: "Search_loop f (h + 1) j s1 = (idx, s')" by simp
      have "(\<forall>k. h + 1 \<le> k \<and> k < idx \<longrightarrow> \<not> P k) \<and> (\<forall>k. idx \<le> k \<and> k < j \<longrightarrow> P k)"
      proof (rule "1.IH"(1) [OF \<open>i < j\<close> h_def fh [symmetric] False _ _ _ res])
        show "h + 1 \<le> j" using hb by simp
        show "\<And>k s. k < j \<Longrightarrow> fst (f k s) = P k" using "1.prems"(2) by simp
        show "\<And>a b. a < b \<Longrightarrow> b < j \<Longrightarrow> P a \<Longrightarrow> P b" using "1.prems"(3) by simp
      qed
      moreover have "\<forall>k. k \<le> h \<longrightarrow> \<not> P k"
      proof (intro allI impI)
        fix k assume k: "k \<le> h"
        show "\<not> P k"
        proof (cases "h = k")
          case True with bP False show ?thesis by simp
        next
          case neq: False
          with k have "k < h" by simp
          from "1.prems"(3) [OF this hb(2)] bP False show ?thesis by blast
        qed
      qed
      ultimately show ?thesis by (metis Suc_eq_plus1 not_less_eq_eq)
    qed
  qed
qed


lemma locateClosure_fst:
  "fst (locateClosure env es r k s) = (evalTrue env (es ! k) r \<or> evalFails env (es ! k) r)"
  by (simp add: locateClosure_def evalTrue_def evalFails_def split: sum.splits prod.splits)


lemma locateClosure_false:
  "locateClosure env es r k s = (False, s1) \<Longrightarrow> s1 = None"
  by (auto simp add: locateClosure_def split: sum.splits prod.splits)

lemma Search_loop_all_false:
  assumes "i \<le> j" and "Search_loop (locateClosure env es r) i j s = (idx, s')" and "j \<le> idx"
  shows "s' = None \<or> s' = s"
  using assms
proof (induction "locateClosure env es r" i j s rule: Search_loop.induct)
  case (1 i j s)
  let ?f = "locateClosure env es r"
  show ?case
  proof (cases "i < j")
    case False
    with "1.prems"(1,2) show ?thesis by (auto simp add: Search_loop_done)
  next
    case True
    define h where "h = (i + j) div 2"
    obtain b s1 where fh: "?f h s = (b, s1)" by (cases "?f h s")
    have hb: "i \<le> h" "h < j" using True by (simp_all add: h_def)
    have step: "Search_loop ?f i j s = (if b then Search_loop ?f i h s1 else Search_loop ?f (h + 1) j s1)"
      using Search_loop_step [OF True, of ?f s b s1] fh by (simp add: h_def)
    show ?thesis
    proof (cases b)
      case True
      with step "1.prems"(2) have res: "Search_loop ?f i h s1 = (idx, s')" by simp
      from Search_loop_bounds [OF hb(1) res] hb(2) "1.prems"(3) show ?thesis by simp
    next
      case False
      with step "1.prems"(2) have res: "Search_loop ?f (h + 1) j s1 = (idx, s')" by simp
      have "s1 = None" using locateClosure_false [of env es r h s s1] fh False by simp
      moreover have "s' = None \<or> s' = s1"
        using "1.hyps"(1) [OF \<open>i < j\<close> h_def fh [symmetric] False _ res "1.prems"(3)] hb by simp
      ultimately show ?thesis by blast
    qed
  qed
qed

lemma locateSearch_outside:
  assumes "locateSearch env es r = (idx, err)" and "length es \<le> idx"
  shows "err = None"
  using Search_loop_all_false [of 0 "length es" env es r None idx err] assms
  by (simp add: locateSearch_def Search_def)



lemma locateSearch_all_false:
  assumes "\<forall>i<length es. \<not> evalTrue env (es ! i) r \<and> \<not> evalFails env (es ! i) r"
  shows "locateSearch env es r = (length es, None)"
proof -
  let ?f = "locateClosure env es r"
  obtain idx err where res: "Search_loop ?f 0 (length es) None = (idx, err)"
    by (cases "Search_loop ?f 0 (length es) None")
  have "(\<forall>k. 0 \<le> k \<and> k < idx \<longrightarrow> \<not> False) \<and> (\<forall>k. idx \<le> k \<and> k < length es \<longrightarrow> False)"
  proof (rule Search_loop_monotone [where P = "\<lambda>k. False", OF _ _ _ res])
    show "\<And>k s. k < length es \<Longrightarrow> fst (?f k s) = False"
      using assms by (simp add: locateClosure_fst)
  qed simp_all
  then have "length es \<le> idx" by (meson not_le_imp_less order_refl)
  moreover from Search_loop_bounds [OF _ res] have "idx \<le> length es" by simp
  ultimately have "idx = length es" by simp
  moreover have "err = None"
    using locateSearch_outside [of env es r idx err] res \<open>length es \<le> idx\<close>
    by (simp add: locateSearch_def Search_def)
  ultimately show ?thesis using res by (simp add: locateSearch_def Search_def)
qed

subsection \<open>The boundary compiler\<close>

lemma LessThan0_Return:
  "LessThan0 d = Return v \<Longrightarrow> LessThan d \<noteq> [] \<and> v = hd (LessThan d)"
  by (cases "LessThan d") (simp_all add: LessThan0_def)

lemma LessThan0_nonempty:
  "LessThan d \<noteq> [] \<Longrightarrow> LessThan0 d = Return (hd (LessThan d))"
  by (cases "LessThan d") (simp_all add: LessThan0_def)

lemma locateText_spec:
  "locateText pi (boundaryLiteral pi i) = spec_UpperBoundText pi i"
  by (simp add: locateText_def spec_UpperBoundText_def isUnbounded_def)

lemma pruneText_spec:
  "0 < i \<Longrightarrow>
   pruneText pi (spec_UpperBoundText pi i) (boundaryLiteral pi (i - Suc 0)) = spec_RangeText pi i"
  by (simp add: pruneText_def spec_RangeText_def)

text \<open>One iteration of the loop, on a definition list without empty boundary lists.\<close>

lemma generateLoop_step:
  assumes "i < length (Definitions pi)"
    and "\<forall>k<length (Definitions pi). LessThan (Definitions pi ! k) \<noteq> []"
  shows "generateLoop env tblInfo pi i rs us =
     (case ParseSimpleExprWithTableInfo env (spec_UpperBoundText pi i) tblInfo of
        Inl err \<Rightarrow> Return (Inl err)
      | Inr expr \<Rightarrow>
         (case ParseSimpleExprWithTableInfo env (spec_RangeText pi i) tblInfo of
            Inl err \<Rightarrow> Return (Inl err)
          | Inr expr' \<Rightarrow> generateLoop env tblInfo pi (i + 1) (rs @ [expr']) (us @ [expr])))"
proof -
  have a: "LessThan0 (Definitions pi ! i) = Return (boundaryLiteral pi i)"
    using assms by (simp add: LessThan0_nonempty boundaryLiteral_def)
  have b: "0 < i \<Longrightarrow> LessThan0 (Definitions pi ! (i - 1)) = Return (boundaryLiteral pi (i - 1))"
    using assms by (simp add: LessThan0_nonempty boundaryLiteral_def)
  show ?thesis
  proof (cases "0 < i")
    case True
    with assms a b show ?thesis
      by (subst generateLoop.simps)
         (simp add: locateText_spec pruneText_spec Trace_def split: sum.splits)
  next
    case False
    then have "spec_RangeText pi i = spec_UpperBoundText pi i" by (simp add: spec_RangeText_def)
    with False assms a show ?thesis
      by (subst generateLoop.simps) (simp add: locateText_spec Trace_def split: sum.splits)
  qed
qed

lemma generateLoop_done:
  "\<not> i < length (Definitions pi) \<Longrightarrow>
   generateLoop env tblInfo pi i rs us = Return (Inr \<lparr>Ranges = rs, UpperBounds = us\<rparr>)"
  by (subst generateLoop.simps) simp

text \<open>A panic of the loop comes from an empty boundary list.\<close>

lemma generateLoop_panics:
  assumes "generateLoop env tblInfo pi i rs us = Panic p"
  shows "\<exists>k<length (Definitions pi). LessThan (Definitions pi ! k) = []"
proof (rule ccontr)
  assume "\<not> ?thesis"
  then have wf: "\<forall>k<length (Definitions pi). LessThan (Definitions pi ! k) \<noteq> []" by simp
  have "generateLoop env tblInfo pi i rs us \<noteq> Panic p" for i rs us
  proof (induction "length (Definitions pi) - i" arbitrary: i rs us)
    case 0
    then show ?case by (simp add: generateLoop_done)
  next
    case (Suc n)
    then have lt: "i < length (Definitions pi)" by simp
    from Suc(1) [of "i + 1"] Suc(2) have "\<And>rs us. generateLoop env tblInfo pi (i + 1) rs us \<noteq> Panic p"
      by simp
    then show ?case
      by (simp add: generateLoop_step [OF lt wf] split: sum.splits)
  qed
  with assms show False by simp
qed

lemma generateLoop_Inr:
  assumes "generateLoop env tblInfo pi i rs us = Return (Inr pe)"
    and "\<forall>k<length (Definitions pi). LessThan (Definitions pi ! k) \<noteq> []"
    and "i \<le> length (Definitions pi)" and "length rs = i" and "length us = i"
  shows "length (Ranges pe) = length (Definitions pi) \<and>
         length (UpperBounds pe) = length (Definitions pi) \<and>
         take i (Ranges pe) = rs \<and> take i (UpperBounds pe) = us \<and>
         (\<forall>k<length (Definitions pi). i \<le> k \<longrightarrow>
            ParseSimpleExprWithTableInfo env (spec_UpperBoundText pi k) tblInfo = Inr (UpperBounds pe ! k) \<and>
            ParseSimpleExprWithTableInfo env (spec_RangeText pi k) tblInfo = Inr (Ranges pe ! k))"
  using assms
proof (induction "length (Definitions pi) - i" arbitrary: i rs us)
  case 0
  then have "pe = \<lparr>Ranges = rs, UpperBounds = us\<rparr>" by (simp add: generateLoop_done)
  with 0 show ?case by simp
next
  case (Suc n)
  then have lt: "i < length (Definitions pi)" by simp
  from Suc.prems(1) obtain e e' where
    pu: "ParseSimpleExprWithTableInfo env (spec_UpperBoundText pi i) tblInfo = Inr e" and
    pr: "ParseSimpleExprWithTableInfo env (spec_RangeText pi i) tblInfo = Inr e'" and
    rec: "generateLoop env tblInfo pi (i + 1) (rs @ [e']) (us @ [e]) = Return (Inr pe)"
    by (auto simp add: generateLoop_step [OF lt Suc.prems(2)] split: sum.splits)
  have IH: "length (Ranges pe) = length (Definitions pi) \<and>
         length (UpperBounds pe) = length (Definitions pi) \<and>
         take (i + 1) (Ranges pe) = rs @ [e'] \<and> take (i + 1) (UpperBounds pe) = us @ [e] \<and>
         (\<forall>k<length (Definitions pi). i + 1 \<le> k \<longrightarrow>
            ParseSimpleExprWithTableInfo env (spec_UpperBoundText pi k) tblInfo = Inr (UpperBounds pe ! k) \<and>
            ParseSimpleExprWithTableInfo env (spec_RangeText pi k) tblInfo = Inr (Ranges pe ! k))"
    using Suc.hyps(1) [of "i + 1" "rs @ [e']" "us @ [e]"] Suc.hyps(2) rec Suc.prems(2,4,5) lt
    by simp
  have ti: "take i (Ranges pe) = rs" "take i (UpperBounds pe) = us"
    and ni: "Ranges pe ! i = e'" "UpperBounds pe ! i = e"
  proof -
    from IH have r: "take (Suc i) (Ranges pe) = rs @ [e']" and u: "take (Suc i) (UpperBounds pe) = us @ [e]"
      by simp_all
    have "take i (take (Suc i) (Ranges pe)) = take i (Ranges pe)" by (simp add: min_def)
    with r Suc.prems(4) show "take i (Ranges pe) = rs" by simp
    have "take i (take (Suc i) (UpperBounds pe)) = take i (UpperBounds pe)" by (simp add: min_def)
    with u Suc.prems(5) show "take i (UpperBounds pe) = us" by simp
    have "take (Suc i) (Ranges pe) ! i = Ranges pe ! i" by simp
    with r Suc.prems(4) show "Ranges pe ! i = e'" by (simp add: nth_append)
    have "take (Suc i) (UpperBounds pe) ! i = UpperBounds pe ! i" by simp
    with u Suc.prems(5) show "UpperBounds pe ! i = e" by (simp add: nth_append)
  qed
  have "\<forall>k<length (Definitions pi). i \<le> k \<longrightarrow>
            ParseSimpleExprWithTableInfo env (spec_UpperBoundText pi k) tblInfo = Inr (UpperBounds pe ! k) \<and>
            ParseSimpleExprWithTableInfo env (spec_RangeText pi k) tblInfo = Inr (Ranges pe ! k)"
  proof (intro allI impI)
    fix k assume k: "k < length (Definitions pi)" "i \<le> k"
    show "ParseSimpleExprWithTableInfo env (spec_UpperBoundText pi k) tblInfo = Inr (UpperBounds pe ! k) \<and>
            ParseSimpleExprWithTableInfo env (spec_RangeText pi k) tblInfo = Inr (Ranges pe ! k)"
    proof (cases "k = i")
      case True
      with pu pr ni show ?thesis by simp
    next
      case False
      with k have "i + 1 \<le> k" by simp
      with IH k show ?thesis by blast
    qed
  qed
  with IH ti show ?case by simp
qed

lemma generateLoop_Inl:
  assumes "generateLoop env tblInfo pi i rs us = Return (Inl err)"
    and "\<forall>k<length (Definitions pi). LessThan (Definitions pi ! k) \<noteq> []"
  shows "\<exists>k<length (Definitions pi).
           ParseSimpleExprWithTableInfo env (spec_UpperBoundText pi k) tblInfo = Inl err \<or>
           ParseSimpleExprWithTableInfo env (spec_RangeText pi k) tblInfo = Inl err"
  using assms
proof (induction "length (Definitions pi) - i" arbitrary: i rs us)
  case 0
  then show ?case by (simp add: generateLoop_done)
next
  case (Suc n)
  then have lt: "i < length (Definitions pi)" by simp
  show ?case
  proof (cases "ParseSimpleExprWithTableInfo env (spec_UpperBoundText pi i) tblInfo")
    case (Inl e)
    with Suc.prems(1) lt show ?thesis
      by (auto simp add: generateLoop_step [OF lt Suc.prems(2)])
  next
    case u: (Inr e)
    show ?thesis
    proof (cases "ParseSimpleExprWithTableInfo env (spec_RangeText pi i) tblInfo")
      case (Inl e2)
      with u Suc.prems(1) lt show ?thesis
        by (auto simp add: generateLoop_step [OF lt Suc.prems(2)])
    next
      case (Inr e')
      with u Suc.prems(1) have "generateLoop env tblInfo pi (i + 1) (rs @ [e']) (us @ [e]) = Return (Inl err)"
        by (simp add: generateLoop_step [OF lt Suc.prems(2)])
      from Suc.hyps(1) [OF _ this Suc.prems(2)] Suc.hyps(2) show ?thesis by simp
    qed
  qed
qed

lemma wf_nth:
  "\<forall>d\<in>set (Definitions pi). LessThan d \<noteq> [] \<Longrightarrow>
   \<forall>k<length (Definitions pi). LessThan (Definitions pi ! k) \<noteq> []"
  by simp

lemma generateLoop_returns:
  assumes "\<forall>k<length (Definitions pi). LessThan (Definitions pi ! k) \<noteq> []"
  shows "(\<exists>err. generateLoop env tblInfo pi i rs us = Return (Inl err)) \<or>
         (\<exists>pe. generateLoop env tblInfo pi i rs us = Return (Inr pe))"
proof (cases "generateLoop env tblInfo pi i rs us")
  case (Panic p)
  from generateLoop_panics [OF this] assms show ?thesis by blast
next
  case (Return x)
  then show ?thesis by (cases x) simp_all
qed

lemma generateLoop_lengths:
  "generateLoop env tblInfo pi i rs us = Return (Inr pe) \<Longrightarrow>
   length (UpperBounds pe) = length us + (length (Definitions pi) - i)"
proof (induction "length (Definitions pi) - i" arbitrary: i rs us)
  case 0
  then show ?case by (auto simp add: generateLoop_done)
next
  case (Suc n)
  then have lt: "i < length (Definitions pi)" by simp
  have "\<exists>e e'. generateLoop env tblInfo pi (i + 1) (rs @ [e']) (us @ [e]) = Return (Inr pe)"
    using Suc.prems lt
    by (subst (asm) generateLoop.simps)
       (auto simp add: Let_def split: go.splits sum.splits if_splits)
  then obtain e e' where
    "generateLoop env tblInfo pi (i + 1) (rs @ [e']) (us @ [e]) = Return (Inr pe)" by blast
  from Suc.hyps(1) [OF _ this] Suc.hyps(2) lt show ?case by simp
qed

subsection \<open>The registry\<close>

lemma buildPartitions_other:
  "buildPartitions env tbl tblInfo defs parts = Inr m \<Longrightarrow> k \<notin> ID ` set defs \<Longrightarrow> m k = parts k"
proof (induction defs arbitrary: parts)
  case Nil
  then show ?case by auto
next
  case (Cons d ds)
  from Cons.prems(1) obtain p where
    rec: "buildPartitions env tbl tblInfo ds (parts(ID d \<mapsto> p)) = Inr m"
    by (auto split: sum.splits)
  from Cons.IH [OF rec] Cons.prems(2) show ?case by simp
qed

lemma buildPartitions_Inr:
  "buildPartitions env tbl tblInfo defs parts = Inr m \<Longrightarrow>
   dom m = dom parts \<union> ID ` set defs \<and>
   (\<forall>d\<in>set defs. \<exists>p. m (ID d) = Some p \<and> initTableCommonWithIndices env tblInfo (ID d) tbl = Inr p)"
proof (induction defs arbitrary: parts)
  case Nil
  then show ?case by simp
next
  case (Cons d ds)
  from Cons.prems obtain p where
    p: "initTableCommonWithIndices env tblInfo (ID d) tbl = Inr p" and
    rec: "buildPartitions env tbl tblInfo ds (parts(ID d \<mapsto> p)) = Inr m"
    by (auto split: sum.splits)
  have "dom (parts(ID d \<mapsto> p)) = insert (ID d) (dom parts)" by simp
  with Cons.IH [OF rec] have
    dm: "dom m = insert (ID d) (dom parts) \<union> ID ` set ds" and
    each: "\<forall>x\<in>set ds. \<exists>q. m (ID x) = Some q \<and> initTableCommonWithIndices env tblInfo (ID x) tbl = Inr q"
    by (simp_all del: dom_fun_upd fun_upd_apply)
  have "ID d \<in> dom m" using dm by simp
  then obtain q where q: "m (ID d) = Some q" by blast
  have "q = p"
  proof (cases "ID d \<in> ID ` set ds")
    case True
    then obtain x where "x \<in> set ds" "ID x = ID d" by auto
    with each p q show ?thesis by fastforce
  next
    case False
    have "m (ID d) = (parts(ID d \<mapsto> p)) (ID d)"
      by (rule buildPartitions_other [OF rec False])
    with q show ?thesis by simp
  qed
  with q p each dm show ?case by auto
qed

lemma buildPartitions_Inl:
  "buildPartitions env tbl tblInfo defs parts = Inl err \<Longrightarrow>
   \<exists>d\<in>set defs. initTableCommonWithIndices env tblInfo (ID d) tbl = Inl err"
proof (induction defs arbitrary: parts)
  case Nil
  then show ?case by simp
next
  case (Cons d ds)
  then show ?case by (auto simp add: Trace_def split: sum.splits)
qed

lemma buildPartitions_fails:
  "\<exists>d\<in>set defs. \<exists>err. initTableCommonWithIndices env tblInfo (ID d) tbl = Inl err \<Longrightarrow>
   \<exists>err. buildPartitions env tbl tblInfo defs parts = Inl err"
proof (cases "buildPartitions env tbl tblInfo defs parts")
  case (Inl a)
  then show ?thesis by simp
next
  case (Inr m)
  assume "\<exists>d\<in>set defs. \<exists>err. initTableCommonWithIndices env tblInfo (ID d) tbl = Inl err"
  with buildPartitions_Inr [OF Inr] show ?thesis by fastforce
qed

lemma newPartitionedTable_Inr:
  assumes "newPartitionedTable env tbl tblInfo = Return (Inr t)"
  shows "\<exists>pi. GetPartitionInfo env tblInfo = Some pi \<and>
           generatePartitionExpr env tblInfo = Return (Inr (partitionExpr t)) \<and>
           initTableIndices env tbl = Inr (Table t) \<and>
           buildPartitions env (Table t) tblInfo (Definitions pi) Map.empty = Inr (partitions t)"
  using assms
  by (auto simp add: newPartitionedTable_def split: go.splits sum.splits option.splits)

subsection \<open>Locating on a built table\<close>

lemma locatePartition_Inr:
  assumes "locatePartition env t pinfo r = Return (Inr pid)"
  shows "\<exists>pi. pinfo = Some pi \<and> pid \<in> ID ` set (Definitions pi)"
  using assms
  by (auto simp add: locatePartition_def Let_def split: prod.splits option.splits if_splits)

lemma locatePartition_no_panic:
  assumes "length (Definitions pi) = length (UpperBounds (partitionExpr t))"
  shows "locatePartition env t (Some pi) r \<noteq> Panic q"
proof -
  obtain idx err where s: "locateSearch env (UpperBounds (partitionExpr t)) r = (idx, err)"
    by (cases "locateSearch env (UpperBounds (partitionExpr t)) r")
  with assms show ?thesis
    by (cases err) (simp_all add: locatePartition_def)
qed

lemma built_lengths:
  assumes "newPartitionedTable env tbl tblInfo = Return (Inr t)"
  shows "\<exists>pi. GetPartitionInfo env tblInfo = Some pi \<and>
           length (Definitions pi) = length (UpperBounds (partitionExpr t)) \<and>
           dom (partitions t) = ID ` set (Definitions pi)"
proof -
  from newPartitionedTable_Inr [OF assms] obtain pi where
    pi: "GetPartitionInfo env tblInfo = Some pi" and
    gen: "generatePartitionExpr env tblInfo = Return (Inr (partitionExpr t))" and
    bp: "buildPartitions env (Table t) tblInfo (Definitions pi) Map.empty = Inr (partitions t)"
    by blast
  from gen pi have "generateLoop env tblInfo pi 0 [] [] = Return (Inr (partitionExpr t))"
    by (simp add: generatePartitionExpr_def)
  from generateLoop_lengths [OF this]
  have "length (UpperBounds (partitionExpr t)) = length (Definitions pi)" by simp
  with pi buildPartitions_Inr [OF bp] show ?thesis by simp
qed

lemma receiver_Some: "partitions t pid = Some p \<Longrightarrow> receiver (GetPartition t pid) = Return p"
  by (simp add: receiver_def GetPartition_def)

subsection \<open>The instance\<close>

lemma demo_evalTrue [simp]:
  "evalTrue demo_env e (k # rest) = (holds e k = Inr True)"
  by (cases "holds e k") (auto simp add: evalTrue_def demo_env_def demo_EvalInt_def word_sless_alt)

lemma demo_evalFails [simp]:
  "evalFails demo_env e (k # rest) = (\<exists>err. holds e k = Inl err)"
  by (cases "holds e k") (auto simp add: evalFails_def demo_env_def demo_EvalInt_def)

lemma demo_built3:
  "newPartitionedTable demo_env (demo_info3, 40) demo_info3 = Return (Inr demo_table3)"
proof -
  have "generatePartitionExpr demo_env demo_info3 = Return (Inr (partitionExpr demo_table3))"
    by code_simp
  then show ?thesis
    by (simp add: newPartitionedTable_def demo_table3_def)
       (simp add: demo_env_def demo_info3_def)
qed

lemma demo_meta3: "GetPartitionInfo demo_env (meta demo_env (Table demo_table3)) = Some demo_info3"
  by (simp add: demo_env_def demo_table3_def)

lemma demo_locate3:
  "locatePartition demo_env demo_table3 (Some demo_info3) [90, 1] = Return (Inr 41)"
  "locatePartition demo_env demo_table3 (Some demo_info3) [150, 1] = Return (Inr 42)"
  "locatePartition demo_env demo_table3 (Some demo_info3) [160, 1] = Return (Inr 42)"
  "locatePartition demo_env demo_table3 (Some demo_info3) [250, 1] = Return (Inr 43)"
  by code_simp+

lemma demo_partitions3:
  "partitions demo_table3 41 = Some (demo_info3, 41)"
  "partitions demo_table3 42 = Some (demo_info3, 42)"
  "partitions demo_table3 43 = Some (demo_info3, 43)"
  by (simp_all add: demo_table3_def)

section \<open>The claims\<close>



text \<open>
  C2. In an \<open>UpdateRecord\<close> whose two rows are located in different partitions the
  first call on a physical table is \<open>AddRecord\<close> of the new row on the destination.
  When it fails, \<open>UpdateRecord\<close> returns its error, no other call is made (none on
  the source), and the storage is as the failed add left it: unchanged, with no row
  created, when a failed add changes nothing. When it succeeds, the one further call is
  \<open>RemoveRecord\<close> of the old row on the source, whose result is returned.
\<close>

theorem UpdateRecord_cross_partition:
  assumes "locatePartition env t (GetPartitionInfo env (meta env (Table t))) currData =
             Return (Inr from)"
    and "locatePartition env t (GetPartitionInfo env (meta env (Table t))) newData =
           Return (Inr to)"
    and "from \<noteq> to"
    and "partitions t to = Some dst"
    and "partitions t from = Some src"
  shows "(\<forall>err s1. tableCommon_AddRecord ph dst newData False s = (Inl err, s1) \<longrightarrow>
            UpdateRecord env ph t h currData newData touched s = (Return (Some err), s1) \<and>
            UpdateRecord env (recording ph) t h currData newData touched (s, calls) =
              (Return (Some err), s1, calls @ [AddRecordCall dst newData False])) \<and>
         (\<forall>err. tableCommon_AddRecord ph dst newData False s = (Inl err, s) \<longrightarrow>
            UpdateRecord env ph t h currData newData touched s = (Return (Some err), s)) \<and>
         (\<forall>recordID s1 res s2.
            tableCommon_AddRecord ph dst newData False s = (Inr recordID, s1) \<and>
            tableCommon_RemoveRecord ph src h currData s1 = (res, s2) \<longrightarrow>
            UpdateRecord env ph t h currData newData touched s = (Return res, s2) \<and>
            UpdateRecord env (recording ph) t h currData newData touched (s, calls) =
              (Return res, s2,
               calls @ [AddRecordCall dst newData False, RemoveRecordCall src h currData]))"
  using assms
  by (auto simp add: UpdateRecord_def receiver_Some recording_def Trace_def split: option.splits)

theorem UpdateRecord_cross_partition_witness:
  "UpdateRecord demo_env demo_physical demo_table3 1 [90, 1] [250, 1] [True, False]
     [(41, 1, [90, 1])] = (Return None, [(43, 1, [250, 1])]) \<and>
   UpdateRecord demo_env (recording demo_physical) demo_table3 1 [90, 1] [250, 1] [True, False]
     ([(41, 1, [90, 1])], []) =
     (Return None, [(43, 1, [250, 1])],
      [AddRecordCall (demo_info3, 43) [250, 1] False, RemoveRecordCall (demo_info3, 41) 1 [90, 1]]) \<and>
   UpdateRecord demo_env demo_physical demo_table3 1 [90, 1] [250, 1] [True, False]
     [(41, 1, [90, 1]), (43, 1, [999, 1])] =
     (Return (Some (CollaboratorError ''Key Already Exists'')), [(41, 1, [90, 1]), (43, 1, [999, 1])]) \<and>
   UpdateRecord demo_env (recording demo_physical) demo_table3 1 [90, 1] [250, 1] [True, False]
     ([(41, 1, [90, 1]), (43, 1, [999, 1])], []) =
     (Return (Some (CollaboratorError ''Key Already Exists'')), [(41, 1, [90, 1]), (43, 1, [999, 1])],
      [AddRecordCall (demo_info3, 43) [250, 1] False])"
proof -
  have a: "locatePartition demo_env demo_table3
             (GetPartitionInfo demo_env (meta demo_env (Table demo_table3))) [90, 1] =
           Return (Inr 41)"
    by (simp add: demo_meta3 demo_locate3)
  have b: "locatePartition demo_env demo_table3
             (GetPartitionInfo demo_env (meta demo_env (Table demo_table3))) [250, 1] =
           Return (Inr 43)"
    by (simp add: demo_meta3 demo_locate3)
  have ne: "(41 :: int64) \<noteq> 43" by simp
  have add_ok: "tableCommon_AddRecord demo_physical (demo_info3, 43) [250, 1] False
                  [(41, 1, [90, 1])] = (Inr 1, [(41, 1, [90, 1]), (43, 1, [250, 1])])"
    by (simp add: demo_physical_def demo_handle_def)
  have rem_ok: "tableCommon_RemoveRecord demo_physical (demo_info3, 41) 1 [90, 1]
                  [(41, 1, [90, 1]), (43, 1, [250, 1])] = (None, [(43, 1, [250, 1])])"
    by (simp add: demo_physical_def)
  have add_fails: "tableCommon_AddRecord demo_physical (demo_info3, 43) [250, 1] False
                     [(41, 1, [90, 1]), (43, 1, [999, 1])] =
                   (Inl (CollaboratorError ''Key Already Exists''),
                    [(41, 1, [90, 1]), (43, 1, [999, 1])])"
    by (simp add: demo_physical_def demo_handle_def)
  note ok = UpdateRecord_cross_partition
              [OF a b ne demo_partitions3(3) demo_partitions3(1),
               of demo_physical "[(41, 1, [90, 1])]" 1 "[True, False]" "[]"]
  note fails = UpdateRecord_cross_partition
              [OF a b ne demo_partitions3(3) demo_partitions3(1),
               of demo_physical "[(41, 1, [90, 1]), (43, 1, [999, 1])]" 1 "[True, False]" "[]"]
  from ok add_ok rem_ok have
    "UpdateRecord demo_env demo_physical demo_table3 1 [90, 1] [250, 1] [True, False]
       [(41, 1, [90, 1])] = (Return None, [(43, 1, [250, 1])])"
    "UpdateRecord demo_env (recording demo_physical) demo_table3 1 [90, 1] [250, 1] [True, False]
       ([(41, 1, [90, 1])], []) =
     (Return None, [(43, 1, [250, 1])],
      [AddRecordCall (demo_info3, 43) [250, 1] False, RemoveRecordCall (demo_info3, 41) 1 [90, 1]])"
    by simp_all
  moreover from fails add_fails have
    "UpdateRecord demo_env demo_physical demo_table3 1 [90, 1] [250, 1] [True, False]
     [(41, 1, [90, 1]), (43, 1, [999, 1])] =
     (Return (Some (CollaboratorError ''Key Already Exists'')), [(41, 1, [90, 1]), (43, 1, [999, 1])])"
    "UpdateRecord demo_env (recording demo_physical) demo_table3 1 [90, 1] [250, 1] [True, False]
     ([(41, 1, [90, 1]), (43, 1, [999, 1])], []) =
     (Return (Some (CollaboratorError ''Key Already Exists'')), [(41, 1, [90, 1]), (43, 1, [999, 1])],
      [AddRecordCall (demo_info3, 43) [250, 1] False])"
    by simp_all
  ultimately show ?thesis by simp
qed

text \<open>
  C3. The search does not stop at an evaluation error and the error can be lost. On the
  table with the predicates \<open>[PLess 100, PCast]\<close> and the row with key 150 the
  predicate at index 1 fails first, the closure is then called at index 0, that call
  resets the captured error, and \<open>locatePartition\<close> returns the identifier 52
  and no error.
\<close>

theorem locatePartition_error_lost:
  "evalFails demo_env (UpperBounds (partitionExpr demo_table2) ! 1) [150, 1] \<and>
   Search 2 (probed (locateClosure demo_env (UpperBounds (partitionExpr demo_table2)) [150, 1]))
     (None, []) = (1, None, [1, 0]) \<and>
   locatePartition demo_env demo_table2 (Some demo_info2) [150, 1] = Return (Inr 52)"
  by code_simp

text \<open>
  C4. When the search yields an index outside \<open>[0, partitionCount)\<close>,
  \<open>locatePartition\<close> returns the error \<open>ErrTrgInvalidCreationCtx\<close> and no
  identifier; this is what happens when every predicate evaluates to false on the row,
  as on the table with the one boundary 10 and the row with key 50.
\<close>

theorem locatePartition_no_matching_partition:
  "(locateSearch env (UpperBounds (partitionExpr t)) r = (idx, err) \<and>
    (int idx < 0 \<or> length (UpperBounds (partitionExpr t)) \<le> idx) \<longrightarrow>
      locatePartition env t pi r = Return (Inl ErrTrgInvalidCreationCtx)) \<and>
   ((\<forall>i<length (UpperBounds (partitionExpr t)).
       \<not> evalTrue env (UpperBounds (partitionExpr t) ! i) r \<and>
       \<not> evalFails env (UpperBounds (partitionExpr t) ! i) r) \<longrightarrow>
      locatePartition env t pi r = Return (Inl ErrTrgInvalidCreationCtx))"
proof (intro conjI impI)
  assume a: "locateSearch env (UpperBounds (partitionExpr t)) r = (idx, err) \<and>
    (int idx < 0 \<or> length (UpperBounds (partitionExpr t)) \<le> idx)"
  then have out: "length (UpperBounds (partitionExpr t)) \<le> idx" by simp
  from a locateSearch_outside [of env _ r idx err, OF _ out] have "err = None" by simp
  with a out show "locatePartition env t pi r = Return (Inl ErrTrgInvalidCreationCtx)"
    by (simp add: locatePartition_def Trace_def)
next
  assume "\<forall>i<length (UpperBounds (partitionExpr t)).
       \<not> evalTrue env (UpperBounds (partitionExpr t) ! i) r \<and>
       \<not> evalFails env (UpperBounds (partitionExpr t) ! i) r"
  from locateSearch_all_false [OF this]
  show "locatePartition env t pi r = Return (Inl ErrTrgInvalidCreationCtx)"
    by (simp add: locatePartition_def Trace_def)
qed

theorem locatePartition_no_matching_partition_witness:
  "generatePartitionExpr demo_env demo_info1 = Return (Inr (partitionExpr demo_table1)) \<and>
   locateSearch demo_env (UpperBounds (partitionExpr demo_table1)) [50, 1] = (1, None) \<and>
   locatePartition demo_env demo_table1 (Some demo_info1) [50, 1] =
     Return (Inl ErrTrgInvalidCreationCtx)"
proof -
  have gen: "generatePartitionExpr demo_env demo_info1 = Return (Inr (partitionExpr demo_table1))"
    by code_simp
  have ub: "UpperBounds (partitionExpr demo_table1) = [PLess 10]"
    by (simp add: demo_table1_def)
  have search: "locateSearch demo_env (UpperBounds (partitionExpr demo_table1)) [50, 1] = (1, None)"
    by code_simp
  have out: "int 1 < 0 \<or> length (UpperBounds (partitionExpr demo_table1)) \<le> 1"
    by (simp add: ub)
  have allfalse: "\<forall>i<length (UpperBounds (partitionExpr demo_table1)).
       \<not> evalTrue demo_env (UpperBounds (partitionExpr demo_table1) ! i) [50, 1] \<and>
       \<not> evalFails demo_env (UpperBounds (partitionExpr demo_table1) ! i) [50, 1]"
    unfolding ub by (simp add: All_less_Suc)
  from locatePartition_no_matching_partition
         [of demo_env demo_table1 "[50, 1]" 1 None "Some demo_info1"] search out allfalse gen
  show ?thesis by blast
qed

text \<open>
  C5. For metadata with \<open>n\<close> definitions, each with a boundary literal, on which
  every compilation succeeds, \<open>generatePartitionExpr\<close> returns \<open>UpperBounds\<close>
  and \<open>Ranges\<close> of length \<open>n\<close>; \<open>UpperBounds[i]\<close> is the compiled always-true
  text when boundary \<open>i\<close> is the unbounded marker and the compiled key \<open><\<close>
  boundary \<open>i\<close> otherwise, \<open>Ranges[i]\<close> is the compilation of that text followed,
  for \<open>i > 0\<close>, by \<open>and\<close> key \<open>>=\<close> boundary \<open>i - 1\<close>, and \<open>Ranges[0]\<close> is
  \<open>UpperBounds[0]\<close>.
\<close>

theorem generatePartitionExpr_refines_spec:
  assumes pi: "GetPartitionInfo env tblInfo = Some pi"
    and wf: "\<forall>d\<in>set (Definitions pi). LessThan d \<noteq> []"
    and ok: "\<forall>i<length (Definitions pi).
               (\<exists>e. ParseSimpleExprWithTableInfo env (spec_UpperBoundText pi i) tblInfo = Inr e) \<and>
               (\<exists>e. ParseSimpleExprWithTableInfo env (spec_RangeText pi i) tblInfo = Inr e)"
  shows "\<exists>pe. generatePartitionExpr env tblInfo = Return (Inr pe) \<and>
           length (UpperBounds pe) = length (Definitions pi) \<and>
           length (Ranges pe) = length (Definitions pi) \<and>
           (\<forall>i<length (Definitions pi).
              ParseSimpleExprWithTableInfo env (spec_UpperBoundText pi i) tblInfo =
                Inr (UpperBounds pe ! i) \<and>
              ParseSimpleExprWithTableInfo env (spec_RangeText pi i) tblInfo =
                Inr (Ranges pe ! i)) \<and>
           (0 < length (Definitions pi) \<longrightarrow> Ranges pe ! 0 = UpperBounds pe ! 0)"
proof -
  note wf' = wf_nth [OF wf]
  from generateLoop_returns [OF wf', of env tblInfo 0 "[]" "[]"]
  show ?thesis
  proof
    assume "\<exists>err. generateLoop env tblInfo pi 0 [] [] = Return (Inl err)"
    then obtain err where "generateLoop env tblInfo pi 0 [] [] = Return (Inl err)" ..
    from generateLoop_Inl [OF this wf'] ok have False by fastforce
    then show ?thesis ..
  next
    assume "\<exists>pe. generateLoop env tblInfo pi 0 [] [] = Return (Inr pe)"
    then obtain pe where res: "generateLoop env tblInfo pi 0 [] [] = Return (Inr pe)" ..
    from generateLoop_Inr [OF res wf'] have
      props: "length (Ranges pe) = length (Definitions pi)"
        "length (UpperBounds pe) = length (Definitions pi)"
        "\<forall>k<length (Definitions pi).
            ParseSimpleExprWithTableInfo env (spec_UpperBoundText pi k) tblInfo = Inr (UpperBounds pe ! k) \<and>
            ParseSimpleExprWithTableInfo env (spec_RangeText pi k) tblInfo = Inr (Ranges pe ! k)"
      by simp_all
    have "Ranges pe ! 0 = UpperBounds pe ! 0" if "0 < length (Definitions pi)"
    proof -
      have "spec_RangeText pi 0 = spec_UpperBoundText pi 0" by (simp add: spec_RangeText_def)
      with props(3) that show ?thesis by (metis sum.inject(2))
    qed
    with res props pi show ?thesis by (auto simp add: generatePartitionExpr_def)
  qed
qed

theorem generatePartitionExpr_refines_spec_witness:
  "generatePartitionExpr demo_env demo_info3 = Return (Inr (partitionExpr demo_table3)) \<and>
   ParseSimpleExprWithTableInfo demo_env (spec_UpperBoundText demo_info3 2) demo_info3 =
     Inr (UpperBounds (partitionExpr demo_table3) ! 2) \<and>
   ParseSimpleExprWithTableInfo demo_env (spec_RangeText demo_info3 1) demo_info3 =
     Inr (Ranges (partitionExpr demo_table3) ! 1)"
proof -
  have pi: "GetPartitionInfo demo_env demo_info3 = Some demo_info3" by (simp add: demo_env_def)
  have wf: "\<forall>d\<in>set (Definitions demo_info3). LessThan d \<noteq> []" by (simp add: demo_info3_def)
  have len: "length (Definitions demo_info3) = 3" by (simp add: demo_info3_def)
  have u: "ParseSimpleExprWithTableInfo demo_env (spec_UpperBoundText demo_info3 0) demo_info3 = Inr (PLess 100)"
    "ParseSimpleExprWithTableInfo demo_env (spec_UpperBoundText demo_info3 1) demo_info3 = Inr (PLess 200)"
    "ParseSimpleExprWithTableInfo demo_env (spec_UpperBoundText demo_info3 2) demo_info3 = Inr PTrue"
    by code_simp+
  have r: "ParseSimpleExprWithTableInfo demo_env (spec_RangeText demo_info3 0) demo_info3 = Inr (PLess 100)"
    "ParseSimpleExprWithTableInfo demo_env (spec_RangeText demo_info3 1) demo_info3 =
       Inr (PAnd (PLess 200) (PAtLeast 100))"
    "ParseSimpleExprWithTableInfo demo_env (spec_RangeText demo_info3 2) demo_info3 =
       Inr (PAnd PTrue (PAtLeast 200))"
    by code_simp+
  have ok: "\<forall>i<length (Definitions demo_info3).
               (\<exists>e. ParseSimpleExprWithTableInfo demo_env (spec_UpperBoundText demo_info3 i) demo_info3 = Inr e) \<and>
               (\<exists>e. ParseSimpleExprWithTableInfo demo_env (spec_RangeText demo_info3 i) demo_info3 = Inr e)"
  proof (intro allI impI)
    fix i assume "i < length (Definitions demo_info3)"
    then have "i = 0 \<or> i = 1 \<or> i = 2" unfolding len by auto
    then show "(\<exists>e. ParseSimpleExprWithTableInfo demo_env (spec_UpperBoundText demo_info3 i) demo_info3 = Inr e) \<and>
               (\<exists>e. ParseSimpleExprWithTableInfo demo_env (spec_RangeText demo_info3 i) demo_info3 = Inr e)"
      using u r by blast
  qed
  from generatePartitionExpr_refines_spec [OF pi wf ok] obtain pe where
    pe: "generatePartitionExpr demo_env demo_info3 = Return (Inr pe)"
      "\<forall>i<length (Definitions demo_info3).
         ParseSimpleExprWithTableInfo demo_env (spec_UpperBoundText demo_info3 i) demo_info3 =
           Inr (UpperBounds pe ! i) \<and>
         ParseSimpleExprWithTableInfo demo_env (spec_RangeText demo_info3 i) demo_info3 =
           Inr (Ranges pe ! i)"
    by blast
  have "generatePartitionExpr demo_env demo_info3 = Return (Inr (partitionExpr demo_table3))"
    by code_simp
  with pe(1) have "pe = partitionExpr demo_table3" by simp
  with pe len show ?thesis by simp
qed

text \<open>
  C6. In an \<open>UpdateRecord\<close> whose two rows are located in the same partition the
  only call on a physical table is one \<open>UpdateRecord\<close> on that partition, with the
  arguments as given; the result and the storage are those of that call.
\<close>

theorem UpdateRecord_same_partition:
  assumes "locatePartition env t (GetPartitionInfo env (meta env (Table t))) currData =
             Return (Inr pid)"
    and "locatePartition env t (GetPartitionInfo env (meta env (Table t))) newData =
           Return (Inr pid)"
    and "partitions t pid = Some p"
    and "tableCommon_UpdateRecord ph p h currData newData touched s = (res, s')"
  shows "UpdateRecord env ph t h currData newData touched s = (Return res, s') \<and>
         UpdateRecord env (recording ph) t h currData newData touched (s, calls) =
           (Return res, s', calls @ [UpdateRecordCall p h currData newData touched])"
  using assms
  by (simp add: UpdateRecord_def receiver_Some recording_def)

theorem UpdateRecord_same_partition_witness:
  "UpdateRecord demo_env demo_physical demo_table3 1 [150, 1] [160, 1] [True, False]
     [(42, 1, [150, 1])] = (Return None, [(42, 1, [160, 1])]) \<and>
   UpdateRecord demo_env (recording demo_physical) demo_table3 1 [150, 1] [160, 1] [True, False]
     ([(42, 1, [150, 1])], []) =
     (Return None, [(42, 1, [160, 1])],
      [UpdateRecordCall (demo_info3, 42) 1 [150, 1] [160, 1] [True, False]])"
proof -
  have a: "locatePartition demo_env demo_table3
             (GetPartitionInfo demo_env (meta demo_env (Table demo_table3))) [150, 1] =
           Return (Inr 42)"
    by (simp add: demo_meta3 demo_locate3)
  have b: "locatePartition demo_env demo_table3
             (GetPartitionInfo demo_env (meta demo_env (Table demo_table3))) [160, 1] =
           Return (Inr 42)"
    by (simp add: demo_meta3 demo_locate3)
  have c: "tableCommon_UpdateRecord demo_physical (demo_info3, 42) 1 [150, 1] [160, 1] [True, False]
             [(42, 1, [150, 1])] = (None, [(42, 1, [160, 1])])"
    by (simp add: demo_physical_def)
  from UpdateRecord_same_partition [OF a b demo_partitions3(2) c, of "[]"]
  show ?thesis by simp
qed

text \<open>
  C7. \<open>GetID\<close> on a partitioned table panics and returns no value, for every table.
\<close>

theorem GetID_panics:
  "GetID t = Panic (PanicMsg ''GetID() should never be called on PartitionedTable'') \<and>
   (\<forall>v. GetID t \<noteq> Return v)"
  by (simp add: GetID_def)

text \<open>
  C8. For metadata whose definitions each carry a boundary literal,
  \<open>newPartitionedTable\<close> returns an error and no table when the compilation of a
  boundary predicate fails, when the indices of the table cannot be built, or when a
  partition's physical table cannot be built. A table it returns holds the compiled
  predicates and a registry whose keys are the identifiers of the definitions, each bound
  to the physical table built for it: as many as the definitions when their identifiers
  differ.
\<close>

theorem newPartitionedTable_all_or_nothing:
  assumes pi: "GetPartitionInfo env tblInfo = Some pi"
    and wf: "\<forall>d\<in>set (Definitions pi). LessThan d \<noteq> []"
  shows "((\<exists>i<length (Definitions pi).
             (\<exists>err. ParseSimpleExprWithTableInfo env (spec_UpperBoundText pi i) tblInfo = Inl err) \<or>
             (\<exists>err. ParseSimpleExprWithTableInfo env (spec_RangeText pi i) tblInfo = Inl err)) \<longrightarrow>
          (\<exists>err. newPartitionedTable env tbl tblInfo = Return (Inl err))) \<and>
         ((\<exists>err. initTableIndices env tbl = Inl err) \<longrightarrow>
          (\<exists>err. newPartitionedTable env tbl tblInfo = Return (Inl err))) \<and>
         (\<forall>tbl'. initTableIndices env tbl = Inr tbl' \<and>
            (\<exists>d\<in>set (Definitions pi). \<exists>err.
               initTableCommonWithIndices env tblInfo (ID d) tbl' = Inl err) \<longrightarrow>
            (\<exists>err. newPartitionedTable env tbl tblInfo = Return (Inl err))) \<and>
         (\<forall>t. newPartitionedTable env tbl tblInfo = Return (Inr t) \<longrightarrow>
            generatePartitionExpr env tblInfo = Return (Inr (partitionExpr t)) \<and>
            initTableIndices env tbl = Inr (Table t) \<and>
            dom (partitions t) = ID ` set (Definitions pi) \<and>
            (\<forall>d\<in>set (Definitions pi). \<exists>p. partitions t (ID d) = Some p \<and>
               initTableCommonWithIndices env tblInfo (ID d) (Table t) = Inr p) \<and>
            (distinct (map ID (Definitions pi)) \<longrightarrow>
               card (dom (partitions t)) = length (Definitions pi)))"
proof -
  note wf' = wf_nth [OF wf]
  have gen: "generatePartitionExpr env tblInfo = generateLoop env tblInfo pi 0 [] []"
    using pi by (simp add: generatePartitionExpr_def)
  have total: "(\<exists>err. newPartitionedTable env tbl tblInfo = Return (Inl err)) \<or>
               (\<exists>t. newPartitionedTable env tbl tblInfo = Return (Inr t))"
    using generateLoop_returns [OF wf', of env tblInfo 0 "[]" "[]"] pi
    by (auto simp add: newPartitionedTable_def gen split: sum.splits)
  have built: "generatePartitionExpr env tblInfo = Return (Inr (partitionExpr t)) \<and>
            initTableIndices env tbl = Inr (Table t) \<and>
            buildPartitions env (Table t) tblInfo (Definitions pi) Map.empty = Inr (partitions t)"
    if "newPartitionedTable env tbl tblInfo = Return (Inr t)" for t
    using newPartitionedTable_Inr [OF that] pi by simp
  show ?thesis
  proof (intro conjI impI allI)
    assume bad: "\<exists>i<length (Definitions pi).
             (\<exists>err. ParseSimpleExprWithTableInfo env (spec_UpperBoundText pi i) tblInfo = Inl err) \<or>
             (\<exists>err. ParseSimpleExprWithTableInfo env (spec_RangeText pi i) tblInfo = Inl err)"
    have "newPartitionedTable env tbl tblInfo \<noteq> Return (Inr t)" for t
    proof
      assume "newPartitionedTable env tbl tblInfo = Return (Inr t)"
      from built [OF this] have "generateLoop env tblInfo pi 0 [] [] = Return (Inr (partitionExpr t))"
        by (simp add: gen)
      from generateLoop_Inr [OF this wf'] bad show False by fastforce
    qed
    with total show "\<exists>err. newPartitionedTable env tbl tblInfo = Return (Inl err)" by blast
  next
    assume bad: "\<exists>err. initTableIndices env tbl = Inl err"
    have "newPartitionedTable env tbl tblInfo \<noteq> Return (Inr t)" for t
      using built [of t] bad by auto
    with total show "\<exists>err. newPartitionedTable env tbl tblInfo = Return (Inl err)" by blast
  next
    fix tbl'
    assume bad: "initTableIndices env tbl = Inr tbl' \<and>
            (\<exists>d\<in>set (Definitions pi). \<exists>err.
               initTableCommonWithIndices env tblInfo (ID d) tbl' = Inl err)"
    have "newPartitionedTable env tbl tblInfo \<noteq> Return (Inr t)" for t
    proof
      assume "newPartitionedTable env tbl tblInfo = Return (Inr t)"
      from built [OF this] bad have
        "buildPartitions env tbl' tblInfo (Definitions pi) Map.empty = Inr (partitions t)" by simp
      moreover from bad
      have "\<exists>err. buildPartitions env tbl' tblInfo (Definitions pi) Map.empty = Inl err"
        by (intro buildPartitions_fails) simp
      ultimately show False by simp
    qed
    with total show "\<exists>err. newPartitionedTable env tbl tblInfo = Return (Inl err)" by blast
  next
    fix t
    assume t: "newPartitionedTable env tbl tblInfo = Return (Inr t)"
    from built [OF t] show "generatePartitionExpr env tblInfo = Return (Inr (partitionExpr t))"
      and "initTableIndices env tbl = Inr (Table t)" by simp_all
    from built [OF t] have
      bp: "buildPartitions env (Table t) tblInfo (Definitions pi) Map.empty = Inr (partitions t)"
      by simp
    from buildPartitions_Inr [OF bp] show dm: "dom (partitions t) = ID ` set (Definitions pi)"
      and "\<forall>d\<in>set (Definitions pi). \<exists>p. partitions t (ID d) = Some p \<and>
               initTableCommonWithIndices env tblInfo (ID d) (Table t) = Inr p" by simp_all
    assume "distinct (map ID (Definitions pi))"
    from distinct_card [OF this] dm
    show "card (dom (partitions t)) = length (Definitions pi)" by simp
  qed
qed

theorem newPartitionedTable_all_or_nothing_witness:
  "(\<exists>err. newPartitionedTable demo_env (demo_info_text, 60) demo_info_text = Return (Inl err)) \<and>
   (\<exists>err. newPartitionedTable demo_env (demo_info1, 13) demo_info1 = Return (Inl err)) \<and>
   (\<exists>err. newPartitionedTable demo_env (demo_info13, 12) demo_info13 = Return (Inl err)) \<and>
   newPartitionedTable demo_env (demo_info3, 40) demo_info3 = Return (Inr demo_table3) \<and>
   dom (partitions demo_table3) = {41, 42, 43} \<and>
   card (dom (partitions demo_table3)) = 3"
proof -
  have a: "\<exists>err. newPartitionedTable demo_env (demo_info_text, 60) demo_info_text = Return (Inl err)"
  proof -
    have pi: "GetPartitionInfo demo_env demo_info_text = Some demo_info_text"
      by (simp add: demo_env_def)
    have wf: "\<forall>d\<in>set (Definitions demo_info_text). LessThan d \<noteq> []"
      by (simp add: demo_info_text_def)
    have "ParseSimpleExprWithTableInfo demo_env (spec_UpperBoundText demo_info_text 0) demo_info_text =
            Inl (CollaboratorError ''cannot parse'')"
      by code_simp
    then have bad: "\<exists>i<length (Definitions demo_info_text).
             (\<exists>err. ParseSimpleExprWithTableInfo demo_env (spec_UpperBoundText demo_info_text i)
                      demo_info_text = Inl err) \<or>
             (\<exists>err. ParseSimpleExprWithTableInfo demo_env (spec_RangeText demo_info_text i)
                      demo_info_text = Inl err)"
      by (intro exI [of _ 0]) (simp add: demo_info_text_def)
    from newPartitionedTable_all_or_nothing [OF pi wf, of "(demo_info_text, 60)"] bad
    show ?thesis by blast
  qed
  have b: "\<exists>err. newPartitionedTable demo_env (demo_info1, 13) demo_info1 = Return (Inl err)"
  proof -
    have pi: "GetPartitionInfo demo_env demo_info1 = Some demo_info1" by (simp add: demo_env_def)
    have wf: "\<forall>d\<in>set (Definitions demo_info1). LessThan d \<noteq> []" by (simp add: demo_info1_def)
    have bad: "\<exists>err. initTableIndices demo_env (demo_info1, 13) = Inl err"
      by (simp add: demo_env_def)
    from newPartitionedTable_all_or_nothing [OF pi wf, of "(demo_info1, 13)"] bad
    show ?thesis by blast
  qed
  have c: "\<exists>err. newPartitionedTable demo_env (demo_info13, 12) demo_info13 = Return (Inl err)"
  proof -
    have pi: "GetPartitionInfo demo_env demo_info13 = Some demo_info13" by (simp add: demo_env_def)
    have wf: "\<forall>d\<in>set (Definitions demo_info13). LessThan d \<noteq> []" by (simp add: demo_info13_def)
    have bad: "initTableIndices demo_env (demo_info13, 12) = Inr (demo_info13, 12) \<and>
            (\<exists>d\<in>set (Definitions demo_info13). \<exists>err.
               initTableCommonWithIndices demo_env demo_info13 (ID d) (demo_info13, 12) = Inl err)"
      by (simp add: demo_env_def demo_info13_def)
    from newPartitionedTable_all_or_nothing [OF pi wf, of "(demo_info13, 12)"] bad
    show ?thesis by blast
  qed
  have d: "dom (partitions demo_table3) = {41, 42, 43} \<and> card (dom (partitions demo_table3)) = 3"
  proof -
    have pi: "GetPartitionInfo demo_env demo_info3 = Some demo_info3" by (simp add: demo_env_def)
    have wf: "\<forall>d\<in>set (Definitions demo_info3). LessThan d \<noteq> []" by (simp add: demo_info3_def)
    have ids: "ID ` set (Definitions demo_info3) = {41, 42, 43}" by (simp add: demo_info3_def)
    have dist: "distinct (map ID (Definitions demo_info3))" by (simp add: demo_info3_def)
    have len: "length (Definitions demo_info3) = 3" by (simp add: demo_info3_def)
    from newPartitionedTable_all_or_nothing [OF pi wf, of "(demo_info3, 40)"] demo_built3 ids dist len
    show ?thesis by auto
  qed
  from a b c d demo_built3 show ?thesis by blast
qed

text \<open>
  C9, as the code has it. \<open>GetPartition\<close> is a map read and never fails: for an
  identifier that is not a key of the registry it returns the nil handle, for a key it
  returns that partition's physical table. The claim that the lookup of a foreign
  identifier is fatal fails on the table with the one partition 7, read at 8.
\<close>

theorem GetPartition_is_lookup:
  "GetPartition t pid = Return (partitions t pid) \<and>
   (pid \<notin> dom (partitions t) \<longrightarrow> GetPartition t pid = Return None) \<and>
   (\<forall>p. partitions t pid = Some p \<longrightarrow> GetPartition t pid = Return (Some p))"
  by (auto simp add: GetPartition_def)

theorem GetPartition_is_lookup_witness:
  "GetPartition demo_table1 8 = Return None \<and>
   GetPartition demo_table1 7 = Return (Some (demo_info1, 7))"
proof -
  have a: "8 \<notin> dom (partitions demo_table1)" by (simp add: demo_table1_def)
  have b: "partitions demo_table1 7 = Some (demo_info1, 7)" by (simp add: demo_table1_def)
  from GetPartition_is_lookup [of demo_table1 8] a GetPartition_is_lookup [of demo_table1 7] b
  show ?thesis by blast
qed

theorem GetPartition_missing_returns_nil:
  "8 \<notin> dom (partitions demo_table1) \<and> GetPartition demo_table1 8 = Return None"
  by (simp add: demo_table1_def GetPartition_def)

text \<open>
  C10. On a table built by \<open>newPartitionedTable\<close> from the metadata its
  \<open>meta\<close> field holds, an identifier that \<open>locatePartition\<close> returns is the
  identifier of one of the definitions and a key of the registry, so \<open>GetPartition\<close>
  gives a physical table for it; \<open>AddRecord\<close>, \<open>RemoveRecord\<close> and
  \<open>UpdateRecord\<close> never panic, so they never call through a missing partition.
\<close>

theorem located_partition_is_registered:
  assumes built: "newPartitionedTable env tbl tblInfo = Return (Inr t)"
    and same: "meta env (Table t) = tblInfo"
  shows "(locatePartition env t (GetPartitionInfo env (meta env (Table t))) r = Return (Inr pid) \<longrightarrow>
            (\<exists>pi. GetPartitionInfo env tblInfo = Some pi \<and> pid \<in> ID ` set (Definitions pi)) \<and>
            (\<exists>p. GetPartition t pid = Return (Some p))) \<and>
         (\<forall>q. fst (AddRecord env ph t r skipHandleCheck s) \<noteq> Panic q) \<and>
         (\<forall>q. fst (RemoveRecord env ph t h r s) \<noteq> Panic q) \<and>
         (\<forall>q. fst (UpdateRecord env ph t h currData newData touched s) \<noteq> Panic q)"
proof -
  from built_lengths [OF built] obtain pi where
    pi: "GetPartitionInfo env tblInfo = Some pi" and
    len: "length (Definitions pi) = length (UpperBounds (partitionExpr t))" and
    dm: "dom (partitions t) = ID ` set (Definitions pi)"
    by blast
  have info: "GetPartitionInfo env (meta env (Table t)) = Some pi" using pi same by simp
  have reg: "\<exists>p. partitions t x = Some p" if "locatePartition env t (Some pi) row = Return (Inr x)"
    for row x
  proof -
    from locatePartition_Inr [OF that] have "x \<in> ID ` set (Definitions pi)" by simp
    with dm show ?thesis by blast
  qed
  have loc: "(\<exists>err. locatePartition env t (Some pi) row = Return (Inl err)) \<or>
             (\<exists>x p. locatePartition env t (Some pi) row = Return (Inr x) \<and> partitions t x = Some p)"
    for row
  proof (cases "locatePartition env t (Some pi) row")
    case (Panic q)
    with locatePartition_no_panic [OF len, of env row q] show ?thesis by simp
  next
    case (Return v)
    then show ?thesis using reg by (cases v) auto
  qed
  have 1: "locatePartition env t (GetPartitionInfo env (meta env (Table t))) r = Return (Inr pid) \<longrightarrow>
            (\<exists>pi. GetPartitionInfo env tblInfo = Some pi \<and> pid \<in> ID ` set (Definitions pi)) \<and>
            (\<exists>p. GetPartition t pid = Return (Some p))"
  proof
    assume a: "locatePartition env t (GetPartitionInfo env (meta env (Table t))) r = Return (Inr pid)"
    with info have b: "locatePartition env t (Some pi) r = Return (Inr pid)" by simp
    from locatePartition_Inr [OF b] pi reg [OF b]
    show "(\<exists>pi. GetPartitionInfo env tblInfo = Some pi \<and> pid \<in> ID ` set (Definitions pi)) \<and>
            (\<exists>p. GetPartition t pid = Return (Some p))"
      by (auto simp add: GetPartition_def)
  qed
  have 2: "fst (AddRecord env ph t r skipHandleCheck s) \<noteq> Panic q" for q
    using loc [of r]
    by (auto simp add: AddRecord_def info receiver_Some split: prod.splits)
  have 3: "fst (RemoveRecord env ph t h r s) \<noteq> Panic q" for q
    using loc [of r]
    by (auto simp add: RemoveRecord_def info receiver_Some split: prod.splits)
  have 4: "fst (UpdateRecord env ph t h currData newData touched s) \<noteq> Panic q" for q
    using loc [of currData] loc [of newData]
    by (auto simp add: UpdateRecord_def info receiver_Some
          split: prod.splits sum.splits option.splits if_splits)
  from 1 2 3 4 show ?thesis by blast
qed

theorem located_partition_is_registered_witness:
  "locatePartition demo_env demo_table3 (Some demo_info3) [150, 1] = Return (Inr 42) \<and>
   (\<exists>p. GetPartition demo_table3 42 = Return (Some p)) \<and>
   fst (AddRecord demo_env demo_physical demo_table3 [150, 1] False []) \<noteq> Panic NilDereference"
proof -
  have same: "meta demo_env (Table demo_table3) = demo_info3"
    by (simp add: demo_env_def demo_table3_def)
  have loc: "locatePartition demo_env demo_table3
               (GetPartitionInfo demo_env (meta demo_env (Table demo_table3))) [150, 1] =
             Return (Inr 42)"
    by (simp add: demo_meta3 demo_locate3)
  from located_partition_is_registered
         [OF demo_built3 same, of "[150, 1]" 42 demo_physical False "[]"] loc demo_locate3(2)
  show ?thesis by blast
qed

end
